theory Spec2Isabelle
  imports Main "HOL-Library.Sublist" "HOL-Library.Char_ord" "HOL-Library.List_Lexorder"
begin

section \<open>Python values and exceptions\<close>

text \<open>
  The program is \<^verbatim>\<open>src/zdf_download.py\<close>: class \<^verbatim>\<open>ZDFDownload\<close> with the methods
  \<^verbatim>\<open>should_download\<close>, \<^verbatim>\<open>is_episode_released\<close>, \<^verbatim>\<open>find_filename\<close>,
  \<^verbatim>\<open>download_episode\<close>, \<^verbatim>\<open>check_show\<close>, \<^verbatim>\<open>write_nfo\<close>, \<^verbatim>\<open>save_thumb\<close> and
  \<^verbatim>\<open>check_all_shows\<close>.

  A Python \<^verbatim>\<open>str\<close> is a \<open>string\<close>; characters are bytes, a text outside ASCII is its
  UTF-8 encoding, and the regular-expression class \<^verbatim>\<open>\d\<close> is the ten ASCII digits.
  A value that is a \<^verbatim>\<open>str\<close> or \<^verbatim>\<open>None\<close> is a \<open>string option\<close>. A feed entry is the
  dictionary the code reads with \<^verbatim>\<open>entry.get(key)\<close>: a missing key gives \<open>None\<close>.
\<close>

type_synonym pyval = "string option"

type_synonym entry = "string \<Rightarrow> string option"

datatype error =
    AttributeError
  | TypeError
  | ValueError
  | OSError
  | RegexError
  | RequestException
  | OtherError string

definition py_str :: "pyval \<Rightarrow> string" where
  \<comment> \<open>\<^verbatim>\<open>str(v)\<close>, as \<^verbatim>\<open>'{}'.format(v)\<close> and \<^verbatim>\<open>print\<close> apply it\<close>
  "py_str v = (case v of None \<Rightarrow> ''None'' | Some s \<Rightarrow> s)"

section \<open>Strings: digits, formatting, paths\<close>

definition is_digit :: "char \<Rightarrow> bool" where
  "is_digit c = (c \<in> set ''0123456789'')"

definition digit_char :: "nat \<Rightarrow> char" where
  "digit_char n = char_of (48 + n)"

definition digit_val :: "char \<Rightarrow> int" where
  "digit_val c = int (of_char c) - 48"

definition int_of_digits :: "string \<Rightarrow> int" where
  \<comment> \<open>\<^verbatim>\<open>int(s)\<close> for a string of decimal digits, as the groups \<^verbatim>\<open>(\d+)\<close> are\<close>
  "int_of_digits s = foldl (\<lambda>a c. 10 * a + digit_val c) 0 s"

fun digits_of :: "nat \<Rightarrow> string" where
  "digits_of n = (if n < 10 then [digit_char n] else digits_of (n div 10) @ [digit_char (n mod 10)])"

declare digits_of.simps [simp del]

definition str_int :: "int \<Rightarrow> string" where
  \<comment> \<open>\<^verbatim>\<open>str(n)\<close> for an integer\<close>
  "str_int n = (if n < 0 then CHR ''-'' # digits_of (nat (- n)) else digits_of (nat n))"

definition format_02d :: "int \<Rightarrow> string" where
  \<comment> \<open>\<^verbatim>\<open>'{:0>2d}'.format(n)\<close>: right-aligned in width 2, filled with \<^verbatim>\<open>0\<close>\<close>
  "format_02d n = replicate (2 - length (str_int n)) CHR ''0'' @ str_int n"

definition strftime_y :: "nat \<Rightarrow> string" where
  \<comment> \<open>\<^verbatim>\<open>datetime.strftime(d, '%y')\<close> from the year of \<^verbatim>\<open>d\<close>: the year without century, two digits\<close>
  "strftime_y year = [digit_char ((year div 10) mod 10), digit_char (year mod 10)]"

definition rfind :: "char \<Rightarrow> string \<Rightarrow> int" where
  \<comment> \<open>\<^verbatim>\<open>s.rfind(c)\<close>: the last index of \<^verbatim>\<open>c\<close>, or -1\<close>
  "rfind c s =
     (if c \<in> set s then int (length s) - 1 - int (length (takeWhile (\<lambda>x. x \<noteq> c) (rev s)))
      else - 1)"

definition splitext :: "string \<Rightarrow> string \<times> string" where
  \<comment> \<open>\<^verbatim>\<open>os.path.splitext(p)\<close> (posixpath): split at the last dot of the last path
      component; dots that lead the component do not start an extension\<close>
  "splitext p =
     (let sepIndex = rfind CHR ''/'' p;
          dotIndex = rfind CHR ''.'' p
      in if dotIndex > sepIndex \<and>
            list_ex (\<lambda>c. c \<noteq> CHR ''.'')
              (take (nat (dotIndex - (sepIndex + 1))) (drop (nat (sepIndex + 1)) p))
         then (take (nat dotIndex) p, drop (nat dotIndex) p)
         else (p, []))"

definition path_join :: "string \<Rightarrow> string \<Rightarrow> string" where
  \<comment> \<open>\<^verbatim>\<open>os.path.join(a, b)\<close> (posixpath)\<close>
  "path_join a b =
     (if prefix ''/'' b then b
      else if a = [] \<or> suffix ''/'' a then a @ b
      else a @ ''/'' @ b)"

section \<open>The regular expressions of the code\<close>

fun match_SE :: "string \<Rightarrow> (string \<times> string) option" where
  \<comment> \<open>\<^verbatim>\<open>S(\d+)E(\d+)\<close> at the start of the string: a digit run that \<^verbatim>\<open>E\<close> follows is the
      maximal one, and the last run is greedy\<close>
  "match_SE [] = None"
| "match_SE (c # cs) =
     (if c = CHR ''S'' then
        (let g2 = takeWhile is_digit cs in
         if g2 = [] then None
         else (case dropWhile is_digit cs of
                 [] \<Rightarrow> None
               | e # es \<Rightarrow>
                   if e = CHR ''E'' \<and> takeWhile is_digit es \<noteq> []
                   then Some (g2, takeWhile is_digit es) else None))
      else None)"

fun re_match_filename :: "string \<Rightarrow> (string \<times> string \<times> string) option" where
  \<comment> \<open>\<^verbatim>\<open>re.match(r"^(.* )S(\d+)E(\d+)", s)\<close>: the groups 1, 2, 3, or \<open>None\<close>. The
      greedy \<^verbatim>\<open>.*\<close> takes the longest prefix free of line feeds that lets the rest match.\<close>
  "re_match_filename [] = None"
| "re_match_filename (c # cs) =
     (case (if c = CHR 0x0A then None else re_match_filename cs) of
        Some (g1, g2, g3) \<Rightarrow> Some (c # g1, g2, g3)
      | None \<Rightarrow>
          (if c = CHR '' '' then
             (case match_SE cs of Some (g2, g3) \<Rightarrow> Some ([c], g2, g3) | None \<Rightarrow> None)
           else None))"

fun re_match_nfo :: "string \<Rightarrow> (string \<times> string) option" where
  \<comment> \<open>\<^verbatim>\<open>re.match(r".*S(\d+)E(\d+)", s)\<close>: the groups 1 and 2, or \<open>None\<close>\<close>
  "re_match_nfo [] = None"
| "re_match_nfo (c # cs) =
     (case (if c = CHR 0x0A then None else re_match_nfo cs) of
        Some g \<Rightarrow> Some g
      | None \<Rightarrow> match_SE (c # cs))"

fun nonword :: "char \<Rightarrow> bool" where
  \<comment> \<open>\<^verbatim>\<open>\W\<close>: neither a letter, a digit nor the underscore\<close>
  "nonword c =
     (\<not> (is_digit c \<or> c = CHR ''_'' \<or> (CHR ''a'' \<le> c \<and> c \<le> CHR ''z'')
          \<or> (CHR ''A'' \<le> c \<and> c \<le> CHR ''Z'')))"

definition og_image_tag :: string where
  \<comment> \<open>the literal \<^verbatim>\<open><meta property="og:image"\<close>\<close>
  "og_image_tag = ''<meta property='' @ [CHR 0x22] @ ''og:image'' @ [CHR 0x22]"

definition content_attr :: string where
  \<comment> \<open>the literal \<^verbatim>\<open>content="\<close>\<close>
  "content_attr = ''content='' @ [CHR 0x22]"

definition match_og_at :: "string \<Rightarrow> string option" where
  \<comment> \<open>\<^verbatim>\<open><meta property="og:image"\W+content="(.+?)"\<close> at the start of the string:
      group 1. \<^verbatim>\<open>\W+\<close> is the whole run of non-word characters (a letter follows it);
      the lazy \<^verbatim>\<open>.+?\<close> is one character and then all up to the next double quote,
      with no line feed inside.\<close>
  "match_og_at s =
     (if prefix og_image_tag s then
        (let r = drop (length og_image_tag) s in
         if takeWhile nonword r = [] then None
         else if prefix content_attr (dropWhile nonword r) then
           (case drop (length content_attr) (dropWhile nonword r) of
              [] \<Rightarrow> None
            | c # cs \<Rightarrow>
                if c = CHR 0x0A then None
                else (case dropWhile (\<lambda>x. x \<noteq> CHR 0x22 \<and> x \<noteq> CHR 0x0A) cs of
                        [] \<Rightarrow> None
                      | d # ds \<Rightarrow>
                          if d = CHR 0x22
                          then Some (c # takeWhile (\<lambda>x. x \<noteq> CHR 0x22 \<and> x \<noteq> CHR 0x0A) cs)
                          else None))
         else None)
      else None)"

fun re_match_thumb :: "string \<Rightarrow> string option" where
  \<comment> \<open>\<^verbatim>\<open>re.match(r".*<meta property=\"og:image\"\W+content=\"(.+?)\"", s)\<close>: group 1, or
      \<open>None\<close>\<close>
  "re_match_thumb [] = None"
| "re_match_thumb (c # cs) =
     (case (if c = CHR 0x0A then None else re_match_thumb cs) of
        Some g \<Rightarrow> Some g
      | None \<Rightarrow> match_og_at (c # cs))"

definition hex_digit :: "nat \<Rightarrow> char" where
  "hex_digit n = (''0123456789abcdef'') ! n"

definition repr_byte :: "char \<Rightarrow> char \<Rightarrow> string" where
  \<comment> \<open>one byte inside \<^verbatim>\<open>repr(b)\<close>, \<open>q\<close> the quote in use\<close>
  "repr_byte q c =
     (if c = q \<or> c = CHR 0x5C then [CHR 0x5C, c]
      else if c = CHR 0x09 then [CHR 0x5C, CHR ''t'']
      else if c = CHR 0x0A then [CHR 0x5C, CHR ''n'']
      else if c = CHR 0x0D then [CHR 0x5C, CHR ''r'']
      else if c < CHR 0x20 \<or> CHR 0x7F \<le> c
        then [CHR 0x5C, CHR ''x'', hex_digit (of_char c div 16), hex_digit (of_char c mod 16)]
      else [c])"

definition str_bytes :: "string \<Rightarrow> string" where
  \<comment> \<open>\<^verbatim>\<open>str(b)\<close> for a \<^verbatim>\<open>bytes\<close> object: its \<^verbatim>\<open>repr\<close>, in double quotes when the bytes
      hold a single quote and no double quote, in single quotes otherwise\<close>
  "str_bytes b =
     (let q = (if CHR 0x27 \<in> set b \<and> CHR 0x22 \<notin> set b then CHR 0x22 else CHR 0x27)
      in [CHR ''b'', q] @ concat (map (repr_byte q) b) @ [q])"

section \<open>Configuration, history, the world\<close>

text \<open>
  \<^verbatim>\<open>configuration.py\<close> and \<^verbatim>\<open>history.py\<close> are imported by the program and are not part of
  the sources at hand. The configuration classes are records of the attributes the code
  reads; an attribute that may be unset holds \<open>None\<close>.
\<close>

record download_configuration =
  folder :: string
  filename :: string

record filter_configuration =
  regex :: pyval
  regex_field :: pyval
  min_date :: pyval

record show_configuration =
  feed_url :: string
  download :: download_configuration
  show_filter :: "filter_configuration option"

type_synonym history = "pyval set"

definition is_in_history :: "history \<Rightarrow> pyval \<Rightarrow> bool" where
  \<comment> \<open>Modelled from the spec: \<^verbatim>\<open>History.is_in_history\<close> (\<^verbatim>\<open>history.py\<close> is missing). The
      spec: the history is a set of previously-downloaded link values, and
      \<^verbatim>\<open>isKnown(link)\<close> is true if the link has previously been recorded.\<close>
  "is_in_history h link = (link \<in> h)"

definition add_to_history :: "history \<Rightarrow> pyval \<Rightarrow> history" where
  \<comment> \<open>Modelled from the spec: \<^verbatim>\<open>History.add_to_history\<close> (\<^verbatim>\<open>history.py\<close> is missing). The
      spec: \<^verbatim>\<open>recordDownloaded(link)\<close> idempotently adds the link.\<close>
  "add_to_history h link = insert link h"

datatype level = DEBUG | INFO | ERROR

datatype event =
    Log level string "pyval list"    \<comment> \<open>a call of the logger: level, message, arguments\<close>
  | ParseFeed string                 \<comment> \<open>\<^verbatim>\<open>feedparser.parse(url)\<close>\<close>
  | HttpGet pyval                    \<comment> \<open>\<^verbatim>\<open>requests.get(url)\<close>\<close>
  | Print string                     \<comment> \<open>\<^verbatim>\<open>print(s)\<close>\<close>
  | WriteFile string string          \<comment> \<open>\<^verbatim>\<open>open(path, 'w')\<close> and \<^verbatim>\<open>write(content)\<close>\<close>
  | RunProcess "pyval list"          \<comment> \<open>\<^verbatim>\<open>subprocess.run(argv)\<close>\<close>

type_synonym directories = "string \<Rightarrow> string list option"

record world =
  history :: history                 \<comment> \<open>\<^verbatim>\<open>self.history\<close>\<close>
  dirs :: directories                \<comment> \<open>what \<^verbatim>\<open>os.listdir\<close> gives for a folder; \<open>None\<close>: it raises\<close>
  trace :: "event list"              \<comment> \<open>the calls made to the outside so far, oldest first\<close>

datatype py_datetime = Naive int | Aware int

record response =
  resp_text :: string                \<comment> \<open>\<^verbatim>\<open>.text\<close>\<close>
  resp_content :: string             \<comment> \<open>\<^verbatim>\<open>.content\<close>, the bytes\<close>

text \<open>
  What the libraries and the outside answer is a parameter of the model. An answer that can
  change over time takes the world at the moment of the call. A process and a file
  written change the folders; they give the folders as they are afterwards.
\<close>

record env =
  now_year :: "world \<Rightarrow> nat"
    \<comment> \<open>the year of \<^verbatim>\<open>datetime.now()\<close>\<close>
  re_compile :: "string \<Rightarrow> error + (string \<Rightarrow> bool)"
    \<comment> \<open>\<^verbatim>\<open>re.search(pattern, s)\<close> on a \<^verbatim>\<open>str\<close>: whether it finds a match, once the pattern
        compiles\<close>
  parser_parse :: "string \<Rightarrow> error + py_datetime"
    \<comment> \<open>\<^verbatim>\<open>dateutil.parser.parse(s)\<close> on a \<^verbatim>\<open>str\<close>\<close>
  strptime_aired :: "string \<Rightarrow> error + string"
    \<comment> \<open>\<^verbatim>\<open>datetime.strptime(s, '%a, %d %b %Y %H:%M:%S %z').strftime('%Y-%m-%d')\<close>\<close>
  feedparser_parse :: "world \<Rightarrow> string \<Rightarrow> error + entry list"
    \<comment> \<open>\<^verbatim>\<open>feedparser.parse(url).entries\<close>\<close>
  requests_get :: "world \<Rightarrow> pyval \<Rightarrow> error + response"
  subprocess_run :: "world \<Rightarrow> pyval list \<Rightarrow> error + int \<times> directories"
    \<comment> \<open>\<^verbatim>\<open>subprocess.run(argv)\<close>: it cannot start, or it ends with an exit code\<close>
  open_write :: "world \<Rightarrow> string \<Rightarrow> string \<Rightarrow> error + directories"
    \<comment> \<open>\<^verbatim>\<open>open(path, 'w')\<close> and \<^verbatim>\<open>write(content)\<close>\<close>

datatype 'a result = Return 'a world | Raised error world

fun world_of :: "'a result \<Rightarrow> world" where
  "world_of (Return a w) = w"
| "world_of (Raised e w) = w"

fun is_raised :: "'a result \<Rightarrow> bool" where
  "is_raised (Return a w) = False"
| "is_raised (Raised e w) = True"

fun bind :: "'a result \<Rightarrow> ('a \<Rightarrow> world \<Rightarrow> 'b result) \<Rightarrow> 'b result" where
  \<comment> \<open>the next statement runs in the world the previous one left; an exception ends the
      sequence\<close>
  "bind (Return a w) f = f a w"
| "bind (Raised e w) f = Raised e w"

fun attempt :: "error + 'a \<Rightarrow> world \<Rightarrow> 'a result" where
  "attempt (Inl e) w = Raised e w"
| "attempt (Inr a) w = Return a w"

definition emit :: "event \<Rightarrow> world \<Rightarrow> world" where
  "emit ev w = w\<lparr>trace := trace w @ [ev]\<rparr>"

definition datetime_less :: "py_datetime \<Rightarrow> py_datetime \<Rightarrow> error + bool" where
  \<comment> \<open>\<^verbatim>\<open>a < b\<close> on datetimes: comparing an offset-naive with an offset-aware one raises\<close>
  "datetime_less a b =
     (case (a, b) of
        (Naive x, Naive y) \<Rightarrow> Inr (x < y)
      | (Aware x, Aware y) \<Rightarrow> Inr (x < y)
      | _ \<Rightarrow> Inl TypeError)"

section \<open>The methods of \<^verbatim>\<open>ZDFDownload\<close>\<close>

definition dq :: string where
  \<comment> \<open>the double quote\<close>
  "dq = [CHR 0x22]"

definition episode_msg :: "string \<Rightarrow> string" where
  \<comment> \<open>the log messages \<^verbatim>\<open>'episode "%s" ...'\<close>\<close>
  "episode_msg rest = ''episode '' @ dq @ ''%s'' @ dq @ rest"

definition is_episode_released :: "env \<Rightarrow> world \<Rightarrow> pyval \<Rightarrow> bool result" where
  \<comment> \<open>\<^verbatim>\<open>"verf\<close>u-umlaut\<^verbatim>\<open>gbar bis" in requests.get(url).text\<close>\<close>
  "is_episode_released env w url =
     bind (attempt (requests_get env w url) (emit (HttpGet url) w))
       (\<lambda>result w1.
          Return (sublist (''verf'' @ [CHR 0xC3, CHR 0xBC] @ ''gbar bis'') (resp_text result)) w1)"

definition fails_regex :: "env \<Rightarrow> filter_configuration \<Rightarrow> entry \<Rightarrow> error + bool" where
  \<comment> \<open>lines 39 to 41, the condition
      \<^verbatim>\<open>regex and regex_field and not re.search(regex, entry.get(regex_field))\<close>:
      \<^verbatim>\<open>re.search\<close> compiles the pattern and then refuses \<^verbatim>\<open>None\<close>\<close>
  "fails_regex env f entry =
     (case (regex f, regex_field f) of
        (Some r, Some fld) \<Rightarrow>
          if r \<noteq> [] \<and> fld \<noteq> [] then
            (case re_compile env r of
               Inl e \<Rightarrow> Inl e
             | Inr search \<Rightarrow>
                 (case entry fld of
                    None \<Rightarrow> Inl TypeError
                  | Some s \<Rightarrow> Inr (\<not> search s)))
          else Inr False
      | _ \<Rightarrow> Inr False)"

definition before_min_date :: "env \<Rightarrow> filter_configuration \<Rightarrow> entry \<Rightarrow> error + bool" where
  \<comment> \<open>lines 46 to 50: with \<^verbatim>\<open>min_date\<close> set, whether
      \<^verbatim>\<open>parser.parse(entry.get("published")) < parser.parse(min_date)\<close>\<close>
  "before_min_date env f entry =
     (case min_date f of
        None \<Rightarrow> Inr False
      | Some m \<Rightarrow>
          if m = [] then Inr False
          else (case parser_parse env m of
                  Inl e \<Rightarrow> Inl e
                | Inr md \<Rightarrow>
                    (case entry ''published'' of
                       None \<Rightarrow> Inl TypeError
                     | Some p \<Rightarrow>
                         (case parser_parse env p of
                            Inl e \<Rightarrow> Inl e
                          | Inr entry_date \<Rightarrow> datetime_less entry_date md))))"

definition should_download :: "env \<Rightarrow> world \<Rightarrow> entry \<Rightarrow> show_configuration \<Rightarrow> bool result" where
  "should_download env w entry show_config =
     (if is_in_history (history w) (entry ''link'') then
        Return False (emit (Log DEBUG (episode_msg '' is in history'') [entry ''title'']) w)
      else
        (case show_filter show_config of
           None \<Rightarrow> Return True w
         | Some f \<Rightarrow>
             bind (attempt (fails_regex env f entry) w)
               (\<lambda>no_fit w1.
                  if no_fit then
                    Return False
                      (emit (Log DEBUG (episode_msg '' does not fit regex'') [entry ''title'']) w1)
                  else
                    bind (attempt (before_min_date env f entry) w1)
                      (\<lambda>too_old w2.
                         if too_old then
                           Return False
                             (emit (Log DEBUG (episode_msg '' is before mindate'') [entry ''title'']) w2)
                         else
                           bind (is_episode_released env w2 (entry ''link''))
                             (\<lambda>released w3.
                                if \<not> released then
                                  Return False
                                    (emit (Log DEBUG (episode_msg '' is not yet released'')
                                       [entry ''title'']) w3)
                                else Return True w3)))))"

definition episode_files :: "download_configuration \<Rightarrow> string list \<Rightarrow> string list" where
  \<comment> \<open>line 69: of the sorted listing, the names that contain the configured file name and
      \<^verbatim>\<open>.mp4\<close>\<close>
  "episode_files dl listing =
     filter (\<lambda>name. sublist (filename dl) name \<and> sublist ''.mp4'' name) (sort listing)"

definition find_filename :: "env \<Rightarrow> world \<Rightarrow> download_configuration \<Rightarrow> error + string" where
  "find_filename env w dl =
     (case dirs w (folder dl) of
        None \<Rightarrow> Inl OSError
      | Some listing \<Rightarrow>
          (let season = strftime_y (now_year env w) in
           if length (episode_files dl listing) > 0 then
             (let newest_filename = fst (splitext (last (episode_files dl listing))) in
              case re_match_filename newest_filename of
                None \<Rightarrow> Inl AttributeError
              | Some (g1, g2, g3) \<Rightarrow>
                  (let filename_number = (if season = g2 then g3 else ''00'');
                       new_episode_number = int_of_digits filename_number + 1
                   in Inr (filename dl @ '' S'' @ season @ ''E''
                             @ format_02d new_episode_number)))
           else Inr (filename dl @ '' S'' @ season @ ''E01'')))"

definition download_episode ::
  "env \<Rightarrow> world \<Rightarrow> pyval \<Rightarrow> download_configuration \<Rightarrow> unit result" where
  "download_episode env w url dl =
     bind (attempt (find_filename env w dl) w)
       (\<lambda>fname w1.
          (let download_path = folder dl @ ''/'' @ fname @ ''.%(ext)s'';
               argv = [Some ''youtube-dl'', url, Some ''-o'', Some download_path];
               w2 = emit (RunProcess argv) w1
           in case subprocess_run env w1 argv of
                Inl e \<Rightarrow> Raised e w2
              | Inr (returncode, ds) \<Rightarrow>
                  if returncode = 0 then
                    Return () (w2\<lparr>dirs := ds, history := add_to_history (history w2) url\<rparr>)
                  else
                    Return () (emit (Log ERROR ''error downloading %s'' [url]) (w2\<lparr>dirs := ds\<rparr>))))"

definition nfo_document :: "pyval \<Rightarrow> pyval \<Rightarrow> string \<Rightarrow> int \<Rightarrow> int \<Rightarrow> string" where
  \<comment> \<open>the text of line 120, \<^verbatim>\<open>.format(plot, title, aired, season, episode)\<close>\<close>
  "nfo_document plot title aired season episode =
     ''<?xml version='' @ dq @ ''1.0'' @ dq @ '' encoding='' @ dq @ ''utf-8'' @ dq
       @ '' standalone='' @ dq @ ''yes'' @ dq @ ''?>'' @ [CHR 0x0A]
     @ ''<episodedetails>'' @ [CHR 0x0A]
     @ ''  <plot>'' @ py_str plot @ ''</plot>'' @ [CHR 0x0A]
     @ ''  <title>'' @ py_str title @ ''</title>'' @ [CHR 0x0A]
     @ ''  <aired>'' @ aired @ ''</aired>'' @ [CHR 0x0A]
     @ ''  <season>'' @ str_int season @ ''</season>'' @ [CHR 0x0A]
     @ ''  <episode>'' @ str_int episode @ ''</episode>'' @ [CHR 0x0A]
     @ ''</episodedetails>''"

definition write_file :: "env \<Rightarrow> world \<Rightarrow> string \<Rightarrow> string \<Rightarrow> unit result" where
  \<comment> \<open>\<^verbatim>\<open>with open(path, "w") as f: f.write(content)\<close>\<close>
  "write_file env w path content =
     (case open_write env w path content of
        Inl e \<Rightarrow> Raised e (emit (WriteFile path content) w)
      | Inr ds \<Rightarrow> Return () ((emit (WriteFile path content) w)\<lparr>dirs := ds\<rparr>))"

definition write_nfo :: "env \<Rightarrow> world \<Rightarrow> entry \<Rightarrow> download_configuration \<Rightarrow> unit result" where
  "write_nfo env w entry dl =
     bind (attempt (find_filename env w dl) w)
       (\<lambda>fname w1.
          (let title = entry ''title'';
               plot = entry ''description''
           in bind (attempt (case entry ''published'' of
                               None \<Rightarrow> Inl TypeError
                             | Some p \<Rightarrow> strptime_aired env p) w1)
                (\<lambda>aired w2.
                   case re_match_nfo fname of
                     None \<Rightarrow> Raised AttributeError w2
                   | Some (g1, g2) \<Rightarrow>
                       write_file env w2 (path_join (folder dl) fname @ ''.nfo'')
                         (nfo_document plot title aired (int_of_digits g1) (int_of_digits g2)))))"

definition save_thumb :: "env \<Rightarrow> world \<Rightarrow> entry \<Rightarrow> download_configuration \<Rightarrow> unit result" where
  "save_thumb env w entry dl =
     bind (attempt (find_filename env w dl) w)
       (\<lambda>fname w1.
          bind (attempt (requests_get env w1 (entry ''link'')) (emit (HttpGet (entry ''link'')) w1))
            (\<lambda>html w2.
               case re_match_thumb (str_bytes (resp_content html)) of
                 None \<Rightarrow> Raised AttributeError w2
               | Some thumb_url \<Rightarrow>
                   (let w3 = emit (Print thumb_url) w2 in
                    bind (attempt (requests_get env w3 (Some thumb_url))
                            (emit (HttpGet (Some thumb_url)) w3))
                      (\<lambda>thumb w4.
                         write_file env w4 (path_join (folder dl) fname @ ''-thumb.jpg'')
                           (resp_content thumb)))))"

definition process_entry :: "env \<Rightarrow> show_configuration \<Rightarrow> entry \<Rightarrow> world \<Rightarrow> unit result" where
  \<comment> \<open>the body of the loop of \<^verbatim>\<open>check_show\<close>, lines 104 to 108\<close>
  "process_entry env show_config entry w =
     bind (should_download env w entry show_config)
       (\<lambda>accepted w1.
          if accepted then
            bind (save_thumb env
                    (emit (Log INFO ''downloading episode %s: %s''
                       [entry ''title'', entry ''link'']) w1)
                    entry (download show_config))
              (\<lambda>_ w2.
                 bind (write_nfo env w2 entry (download show_config))
                   (\<lambda>_ w3. download_episode env w3 (entry ''link'') (download show_config)))
          else Return () w1)"

fun check_entries :: "env \<Rightarrow> show_configuration \<Rightarrow> entry list \<Rightarrow> world \<Rightarrow> unit result" where
  \<comment> \<open>the loop of line 103 over the entries left\<close>
  "check_entries env show_config [] w = Return () w"
| "check_entries env show_config (entry # entries) w =
     bind (process_entry env show_config entry w)
       (\<lambda>_ w1. check_entries env show_config entries w1)"

definition check_show :: "env \<Rightarrow> world \<Rightarrow> show_configuration \<Rightarrow> unit result" where
  "check_show env w show_config =
     bind (attempt (feedparser_parse env w (feed_url show_config)) (emit (ParseFeed (feed_url show_config)) w))
       (\<lambda>entries w1. check_entries env show_config (rev entries) w1)"

fun check_shows :: "env \<Rightarrow> show_configuration list \<Rightarrow> world \<Rightarrow> unit result" where
  \<comment> \<open>the loop of lines 135 and 136 over the shows left\<close>
  "check_shows env [] w = Return () w"
| "check_shows env (show_config # shows) w =
     bind (check_show env w show_config) (\<lambda>_ w1. check_shows env shows w1)"

definition check_all_shows :: "env \<Rightarrow> world \<Rightarrow> show_configuration list \<Rightarrow> unit result" where
  "check_all_shows env w shows =
     bind (check_shows env shows (emit (Log INFO ''checking all shows'' []) w))
       (\<lambda>_ w1. Return () (emit (Log INFO ''finished checking all shows'' []) w1))"

section \<open>What a run leaves in the trace\<close>

definition parsed_feeds :: "event list \<Rightarrow> string list" where
  \<comment> \<open>the feeds fetched, in order\<close>
  "parsed_feeds evs = concat (map (\<lambda>ev. case ev of ParseFeed u \<Rightarrow> [u] | _ \<Rightarrow> []) evs)"

definition http_requests :: "event list \<Rightarrow> pyval list" where
  \<comment> \<open>the addresses requested, in order\<close>
  "http_requests evs = concat (map (\<lambda>ev. case ev of HttpGet u \<Rightarrow> [u] | _ \<Rightarrow> []) evs)"

definition processes_run :: "event list \<Rightarrow> pyval list list" where
  \<comment> \<open>the command lines run, in order\<close>
  "processes_run evs = concat (map (\<lambda>ev. case ev of RunProcess a \<Rightarrow> [a] | _ \<Rightarrow> []) evs)"

definition files_written :: "event list \<Rightarrow> string list" where
  \<comment> \<open>the paths opened for writing, in order\<close>
  "files_written evs = concat (map (\<lambda>ev. case ev of WriteFile p c \<Rightarrow> [p] | _ \<Rightarrow> []) evs)"

definition decisions :: "event list \<Rightarrow> pyval list" where
  \<comment> \<open>the episodes decided, in order: every entry that \<^verbatim>\<open>should_download\<close> rejects is
      logged at debug level and every entry it accepts at info level, with the title as
      first argument; the two info lines of \<^verbatim>\<open>check_all_shows\<close> have no argument\<close>
  "decisions evs =
     concat (map (\<lambda>ev. case ev of
                         Log lv msg args \<Rightarrow> (if lv = ERROR then [] else take 1 args)
                       | _ \<Rightarrow> []) evs)"

section \<open>The sequencer, called again and again\<close>






section \<open>A small installation\<close>

definition demo_entry :: "string \<Rightarrow> string \<Rightarrow> entry" where
  "demo_entry link title =
     [''link'' \<mapsto> link, ''title'' \<mapsto> title, ''description'' \<mapsto> ''plot'',
      ''published'' \<mapsto> ''Wed, 10 Jan 2024 20:15:00 +0100'']"

definition demo_page :: response where
  \<comment> \<open>an episode page: available, and with an image\<close>
  "demo_page =
     \<lparr>resp_text = ''Video verf'' @ [CHR 0xC3, CHR 0xBC] @ ''gbar bis 10.01.2025'',
      resp_content = ''<head>'' @ og_image_tag @ '' '' @ content_attr @ ''https://img/1.jpg''
                       @ dq @ ''></head>''\<rparr>"

definition bare_page :: response where
  \<comment> \<open>a page with neither the marker nor an image\<close>
  "bare_page = \<lparr>resp_text = ''<html></html>'', resp_content = ''<html></html>''\<rparr>"

definition demo_env :: env where
  "demo_env =
     \<lparr>now_year = (\<lambda>w. 2024),
      re_compile = (\<lambda>pattern. Inr (\<lambda>s. sublist pattern s)),
      parser_parse = (\<lambda>s. Inr (Naive (int_of_digits (filter is_digit s)))),
      strptime_aired = (\<lambda>s. Inr ''2024-01-10''),
      feedparser_parse = (\<lambda>w url.
        if url = ''feed://demo'' then
          Inr [demo_entry ''https://x/2'' ''Ep2'', demo_entry ''https://x/1'' ''Ep1'']
        else if url = ''feed://bare'' then Inr [demo_entry ''https://x/bare'' ''Bare'']
        else Inr []),
      requests_get = (\<lambda>w url. Inr (if url = Some ''https://x/bare'' then bare_page else demo_page)),
      subprocess_run = (\<lambda>w argv. Inr (0, dirs w)),
      open_write = (\<lambda>w path content. Inr (dirs w))\<rparr>"

definition demo_world :: world where
  "demo_world =
     \<lparr>history = {}, dirs = [''/tv/demo'' \<mapsto> [], ''/tv/bare'' \<mapsto> []], trace = []\<rparr>"

definition demo_show :: show_configuration where
  "demo_show =
     \<lparr>feed_url = ''feed://demo'',
      download = \<lparr>folder = ''/tv/demo'', filename = ''Demo''\<rparr>,
      show_filter = None\<rparr>"

definition bare_show :: show_configuration where
  "bare_show =
     \<lparr>feed_url = ''feed://bare'',
      download = \<lparr>folder = ''/tv/bare'', filename = ''Bare''\<rparr>,
      show_filter = None\<rparr>"

definition title_filter :: filter_configuration where
  "title_filter = \<lparr>regex = Some ''Ep'', regex_field = Some ''subtitle'', min_date = None\<rparr>"

definition failing_env :: env where
  \<comment> \<open>as \<open>demo_env\<close>, with a downloader that exits with code 1\<close>
  "failing_env = demo_env\<lparr>subprocess_run := (\<lambda>w argv. Inr (1, dirs w))\<rparr>"





section \<open>Properties\<close>

subsection \<open>Deciding whether to download\<close>

lemma projections_emit:
  "parsed_feeds (trace (emit ev w)) =
     parsed_feeds (trace w) @ (case ev of ParseFeed u \<Rightarrow> [u] | _ \<Rightarrow> [])"
  "http_requests (trace (emit ev w)) =
     http_requests (trace w) @ (case ev of HttpGet u \<Rightarrow> [u] | _ \<Rightarrow> [])"
  "processes_run (trace (emit ev w)) =
     processes_run (trace w) @ (case ev of RunProcess a \<Rightarrow> [a] | _ \<Rightarrow> [])"
  "decisions (trace (emit ev w)) =
     decisions (trace w)
     @ (case ev of Log lv msg args \<Rightarrow> (if lv = ERROR then [] else take 1 args) | _ \<Rightarrow> [])"
  by (simp_all add: emit_def parsed_feeds_def http_requests_def processes_run_def decisions_def)

text \<open>
  Claim C2. An entry whose link is in the history is rejected, whatever its other fields
  and whatever the filter of the show: the history is asked first, and nothing else is
  evaluated (the answer is \<open>False\<close>, with one debug line logged and no call to the
  outside).
\<close>

theorem should_download_dedup_first:
  assumes "is_in_history (history w) (entry ''link'')"
  shows "should_download env w entry show_config =
           Return False (emit (Log DEBUG (episode_msg '' is in history'') [entry ''title'']) w)"
  using assms by (simp add: should_download_def)

theorem should_download_dedup_first_witness:
  "is_in_history (history (demo_world\<lparr>history := {Some ''https://x/1''}\<rparr>))
     (demo_entry ''https://x/1'' ''Ep1'' ''link'')
   \<and> should_download demo_env (demo_world\<lparr>history := {Some ''https://x/1''}\<rparr>)
       (demo_entry ''https://x/1'' ''Ep1'') (demo_show\<lparr>show_filter := Some title_filter\<rparr>) =
     Return False (emit (Log DEBUG (episode_msg '' is in history'') [Some ''Ep1''])
       (demo_world\<lparr>history := {Some ''https://x/1''}\<rparr>))"
proof -
  have h: "is_in_history (history (demo_world\<lparr>history := {Some ''https://x/1''}\<rparr>))
     (demo_entry ''https://x/1'' ''Ep1'' ''link'')"
    by (simp add: is_in_history_def demo_entry_def)
  have t: "demo_entry ''https://x/1'' ''Ep1'' ''title'' = Some ''Ep1''"
    by (simp add: demo_entry_def)
  show ?thesis
    using h should_download_dedup_first
            [where w = "demo_world\<lparr>history := {Some ''https://x/1''}\<rparr>"
               and entry = "demo_entry ''https://x/1'' ''Ep1''" and env = demo_env
               and show_config = "demo_show\<lparr>show_filter := Some title_filter\<rparr>"]
    by (simp add: t)
qed

text \<open>
  Claim C4. A show without a filter block: after the check of the history the entry is
  accepted at once. No regular expression, no minimum date and no release check is
  evaluated: the answer does not depend on what the outside would give, the world is
  left as it was, and no page is requested.
\<close>

theorem should_download_without_filter:
  assumes "show_filter show_config = None"
  shows "should_download env w entry show_config =
           (if is_in_history (history w) (entry ''link'')
            then Return False
                   (emit (Log DEBUG (episode_msg '' is in history'') [entry ''title'']) w)
            else Return True w)
         \<and> http_requests (trace (world_of (should_download env w entry show_config))) =
             http_requests (trace w)"
  using assms by (simp add: should_download_def projections_emit)

theorem should_download_without_filter_witness:
  "show_filter demo_show = None
   \<and> should_download demo_env demo_world (demo_entry ''https://x/bare'' ''Bare'') demo_show =
       Return True demo_world
   \<and> http_requests (trace (world_of
        (should_download demo_env demo_world (demo_entry ''https://x/bare'' ''Bare'') demo_show))) = []"
proof -
  have h: "show_filter demo_show = None"
    by (simp add: demo_show_def)
  have n: "\<not> is_in_history (history demo_world) (demo_entry ''https://x/bare'' ''Bare'' ''link'')"
    by (simp add: is_in_history_def demo_world_def)
  have e: "http_requests (trace demo_world) = []"
    by (simp add: http_requests_def demo_world_def)
  show ?thesis
    using h n e should_download_without_filter [OF h, of demo_env demo_world "demo_entry ''https://x/bare'' ''Bare''"]
    by simp
qed

text \<open>
  Claim C10, as stated, for every entry that lacks the field: an entry whose link is in the
  history is rejected before the filter is looked at, so \<^verbatim>\<open>should_download\<close> returns
  \<open>False\<close> there and raises nothing.
\<close>

theorem should_download_missing_field_known_link:
  "show_filter (demo_show\<lparr>show_filter := Some title_filter\<rparr>) = Some title_filter
   \<and> regex title_filter = Some ''Ep'' \<and> regex_field title_filter = Some ''subtitle''
   \<and> demo_entry ''https://x/1'' ''Ep1'' ''subtitle'' = None
   \<and> \<not> is_raised (should_download demo_env (demo_world\<lparr>history := {Some ''https://x/1''}\<rparr>)
          (demo_entry ''https://x/1'' ''Ep1'') (demo_show\<lparr>show_filter := Some title_filter\<rparr>))"
  by (simp add: should_download_def is_in_history_def demo_entry_def title_filter_def)

text \<open>
  Claim C10, amended. With a filter whose \<^verbatim>\<open>regex\<close> and \<^verbatim>\<open>regex_field\<close> are both
  non-empty, an entry that has no such field and whose link is not in the history makes
  \<^verbatim>\<open>should_download\<close> raise: the error of the pattern when it does not compile, a
  \<^verbatim>\<open>TypeError\<close> for the missing text otherwise. No boolean is returned.
\<close>

theorem should_download_missing_field:
  assumes "show_filter show_config = Some f"
    and "regex f = Some r" and "r \<noteq> []"
    and "regex_field f = Some fld" and "fld \<noteq> []"
    and "entry fld = None"
    and "\<not> is_in_history (history w) (entry ''link'')"
  shows "should_download env w entry show_config =
           Raised (case re_compile env r of Inl e \<Rightarrow> e | Inr search \<Rightarrow> TypeError) w"
  using assms by (simp add: should_download_def fails_regex_def split: sum.splits)

theorem should_download_missing_field_witness:
  "show_filter (demo_show\<lparr>show_filter := Some title_filter\<rparr>) = Some title_filter
   \<and> regex title_filter = Some ''Ep'' \<and> regex_field title_filter = Some ''subtitle''
   \<and> demo_entry ''https://x/1'' ''Ep1'' ''subtitle'' = None
   \<and> \<not> is_in_history (history demo_world) (demo_entry ''https://x/1'' ''Ep1'' ''link'')
   \<and> should_download demo_env demo_world (demo_entry ''https://x/1'' ''Ep1'')
        (demo_show\<lparr>show_filter := Some title_filter\<rparr>) = Raised TypeError demo_world"
proof -
  have h1: "show_filter (demo_show\<lparr>show_filter := Some title_filter\<rparr>) = Some title_filter"
    by simp
  have h2: "regex title_filter = Some ''Ep''" and h3: "''Ep'' \<noteq> []"
    and h4: "regex_field title_filter = Some ''subtitle''" and h5: "''subtitle'' \<noteq> []"
    by (simp_all add: title_filter_def)
  have h6: "demo_entry ''https://x/1'' ''Ep1'' ''subtitle'' = None"
    by (simp add: demo_entry_def)
  have h7: "\<not> is_in_history (history demo_world) (demo_entry ''https://x/1'' ''Ep1'' ''link'')"
    by (simp add: is_in_history_def demo_world_def)
  have c: "re_compile demo_env ''Ep'' = Inr (\<lambda>s. sublist ''Ep'' s)"
    by (simp add: demo_env_def)
  show ?thesis
    using h1 h2 h4 h6 h7 should_download_missing_field [OF h1 h2 h3 h4 h5 h6 h7, of demo_env]
    by (simp add: c)
qed


subsection \<open>Downloading and the history\<close>

text \<open>
  Claim C1. After \<^verbatim>\<open>download_episode\<close> the history is the old one with the link added
  exactly when the downloader ran and ended with exit code 0. In every other case (a
  non-zero exit code, a downloader that could not start, no file name found) the history
  is unchanged, so the link is in it only if it was before.
\<close>

theorem download_episode_history:
  "history (world_of (download_episode env w url dl)) =
     (if \<exists>fname ds. find_filename env w dl = Inr fname
           \<and> subprocess_run env w
                [Some ''youtube-dl'', url, Some ''-o'',
                 Some (folder dl @ ''/'' @ fname @ ''.%(ext)s'')] = Inr (0, ds)
      then add_to_history (history w) url else history w)"
  by (cases "find_filename env w dl")
     (auto simp: download_episode_def Let_def emit_def split: sum.splits)

theorem download_episode_history_witness:
  "history (world_of (download_episode demo_env demo_world (Some ''https://x/1'')
      (download demo_show))) = {Some ''https://x/1''}
   \<and> history (world_of (download_episode failing_env demo_world (Some ''https://x/1'')
      (download demo_show))) = {}"
proof -
  have f: "find_filename demo_env demo_world (download demo_show) = Inr ''Demo S24E01''"
    by code_simp
  have ok: "subprocess_run demo_env demo_world
              [Some ''youtube-dl'', Some ''https://x/1'', Some ''-o'',
               Some (folder (download demo_show) @ ''/'' @ ''Demo S24E01'' @ ''.%(ext)s'')]
            = Inr (0, dirs demo_world)"
    by (simp add: demo_env_def)
  have ko: "\<And>argv. subprocess_run failing_env demo_world argv = Inr (1, dirs demo_world)"
    by (simp add: failing_env_def)
  have h: "history demo_world = {}"
    by (simp add: demo_world_def)
  have "history (world_of (download_episode demo_env demo_world (Some ''https://x/1'')
          (download demo_show))) = add_to_history (history demo_world) (Some ''https://x/1'')"
    using f ok download_episode_history
            [of demo_env demo_world "Some ''https://x/1''" "download demo_show"]
    by auto
  moreover have "history (world_of (download_episode failing_env demo_world
          (Some ''https://x/1'') (download demo_show))) = history demo_world"
    using ko download_episode_history
            [of failing_env demo_world "Some ''https://x/1''" "download demo_show"]
    by simp
  ultimately show ?thesis
    by (simp add: h add_to_history_def)
qed

subsection \<open>The next file name\<close>











subsection \<open>What each method adds to the trace\<close>

lemma bind_attempt:
  "bind (attempt r w) f = (case r of Inl e \<Rightarrow> Raised e w | Inr a \<Rightarrow> f a w)"
  by (cases r) simp_all

lemma not_raised_unit: "\<not> is_raised r \<Longrightarrow> r = Return () (world_of r)"
  by (cases r) simp_all

lemma history_emit: "history (emit ev w) = history w"
  by (simp add: emit_def)

lemma files_written_emit:
  "files_written (trace (emit ev w)) =
     files_written (trace w) @ (case ev of WriteFile p c \<Rightarrow> [p] | _ \<Rightarrow> [])"
  by (simp add: emit_def files_written_def)

lemmas trace_emit = projections_emit files_written_emit history_emit

lemma is_episode_released_effect:
  "parsed_feeds (trace (world_of (is_episode_released env w url))) = parsed_feeds (trace w)"
  "decisions (trace (world_of (is_episode_released env w url))) = decisions (trace w)"
  "processes_run (trace (world_of (is_episode_released env w url))) = processes_run (trace w)"
  "files_written (trace (world_of (is_episode_released env w url))) = files_written (trace w)"
  "history (world_of (is_episode_released env w url)) = history w"
  by (simp_all add: is_episode_released_def trace_emit bind_attempt split: sum.splits)

lemma should_download_effect:
  "parsed_feeds (trace (world_of (should_download env w entry sc))) = parsed_feeds (trace w)"
  "processes_run (trace (world_of (should_download env w entry sc))) = processes_run (trace w)"
  "files_written (trace (world_of (should_download env w entry sc))) = files_written (trace w)"
  "history (world_of (should_download env w entry sc)) = history w"
  by (simp_all add: should_download_def is_episode_released_def trace_emit bind_attempt
        split: sum.splits option.splits)


lemma write_file_effect:
  "parsed_feeds (trace (world_of (write_file env w path content))) = parsed_feeds (trace w)"
  "decisions (trace (world_of (write_file env w path content))) = decisions (trace w)"
  "processes_run (trace (world_of (write_file env w path content))) = processes_run (trace w)"
  "files_written (trace (world_of (write_file env w path content))) = files_written (trace w) @ [path]"
  "history (world_of (write_file env w path content)) = history w"
  by (simp_all add: write_file_def trace_emit split: sum.splits)

lemma save_thumb_effect:
  "parsed_feeds (trace (world_of (save_thumb env w entry dl))) = parsed_feeds (trace w)"
  "decisions (trace (world_of (save_thumb env w entry dl))) = decisions (trace w)"
  "processes_run (trace (world_of (save_thumb env w entry dl))) = processes_run (trace w)"
  "history (world_of (save_thumb env w entry dl)) = history w"
  by (simp_all add: save_thumb_def Let_def trace_emit bind_attempt write_file_effect
        split: sum.splits option.splits)

lemma save_thumb_files:
  "\<exists>ps. files_written (trace (world_of (save_thumb env w entry dl))) = files_written (trace w) @ ps
        \<and> list_all (suffix ''-thumb.jpg'') ps"
  by (auto simp: save_thumb_def Let_def trace_emit bind_attempt write_file_effect suffix_def
        split: sum.splits option.splits)

lemma write_nfo_effect:
  "parsed_feeds (trace (world_of (write_nfo env w entry dl))) = parsed_feeds (trace w)"
  "decisions (trace (world_of (write_nfo env w entry dl))) = decisions (trace w)"
  by (simp_all add: write_nfo_def Let_def trace_emit bind_attempt write_file_effect
        split: sum.splits option.splits)

lemma download_episode_effect:
  "parsed_feeds (trace (world_of (download_episode env w url dl))) = parsed_feeds (trace w)"
  "decisions (trace (world_of (download_episode env w url dl))) = decisions (trace w)"
  by (simp_all add: download_episode_def Let_def trace_emit bind_attempt
        split: sum.splits option.splits)



lemma bind_chain:
  assumes "\<And>w. obs (world_of (f w)) = obs w"
    and "\<And>w. obs (world_of (g w)) = obs w"
    and "\<And>w. obs (world_of (h w)) = obs w"
  shows "obs (world_of (bind (f w) (\<lambda>_ w2. bind (g w2) (\<lambda>_ w3. h w3)))) = obs w"
proof (cases "f w")
  case (Raised e w1)
  with assms(1) [of w] show ?thesis by simp
next
  case f: (Return a w1)
  with assms(1) [of w] have w1: "obs w1 = obs w" by simp
  show ?thesis
  proof (cases "g w1")
    case (Raised e w2)
    with assms(2) [of w1] f w1 show ?thesis by simp
  next
    case (Return b w2)
    with assms(2) [of w1] assms(3) [of w2] f w1 show ?thesis by simp
  qed
qed

lemma acquire_feeds:
  "parsed_feeds (trace (world_of
      (bind (save_thumb env w entry dl)
         (\<lambda>_ w2. bind (write_nfo env w2 entry dl) (\<lambda>_ w3. download_episode env w3 url dl))))) =
   parsed_feeds (trace w)"
  by (rule bind_chain [where obs = "\<lambda>w. parsed_feeds (trace w)"
        and f = "\<lambda>w. save_thumb env w entry dl" and g = "\<lambda>w. write_nfo env w entry dl"
        and h = "\<lambda>w. download_episode env w url dl"])
     (simp_all add: save_thumb_effect write_nfo_effect download_episode_effect)


lemma process_entry_effect:
  "parsed_feeds (trace (world_of (process_entry env sc entry w))) = parsed_feeds (trace w)"
  by (cases "should_download env w entry sc")
     (use should_download_effect(1) [of env w entry sc] in
       \<open>simp_all add: process_entry_def acquire_feeds trace_emit\<close>)



lemma check_entries_feeds:
  "parsed_feeds (trace (world_of (check_entries env sc entries w))) = parsed_feeds (trace w)"
proof (induction entries arbitrary: w)
  case Nil
  show ?case by simp
next
  case (Cons entry entries)
  show ?case
    by (cases "process_entry env sc entry w")
       (use process_entry_effect [of env sc entry w] in \<open>simp_all add: Cons.IH\<close>)
qed


lemma check_show_feeds:
  "parsed_feeds (trace (world_of (check_show env w sc))) = parsed_feeds (trace w) @ [feed_url sc]"
  by (simp add: check_show_def bind_attempt trace_emit check_entries_feeds split: sum.splits)

lemma check_shows_feeds:
  "\<exists>k\<le>length scs.
      parsed_feeds (trace (world_of (check_shows env scs w))) =
        parsed_feeds (trace w) @ map feed_url (take k scs)
      \<and> (\<not> is_raised (check_shows env scs w) \<longrightarrow> k = length scs)"
proof (induction scs arbitrary: w)
  case Nil
  show ?case by simp
next
  case (Cons sc scs)
  show ?case
  proof (cases "check_show env w sc")
    case (Raised e w1)
    with check_show_feeds [of env w sc]
    have "parsed_feeds (trace (world_of (check_shows env (sc # scs) w))) =
            parsed_feeds (trace w) @ map feed_url (take 1 (sc # scs))"
      and "is_raised (check_shows env (sc # scs) w)"
      by simp_all
    moreover have "(1::nat) \<le> length (sc # scs)" by simp
    ultimately show ?thesis by blast
  next
    case (Return u w1)
    with check_show_feeds [of env w sc]
    have w1: "parsed_feeds (trace w1) = parsed_feeds (trace w) @ [feed_url sc]"
      by simp
    from Cons.IH [of w1] obtain k where "k \<le> length scs"
      and "parsed_feeds (trace (world_of (check_shows env scs w1))) =
             parsed_feeds (trace w1) @ map feed_url (take k scs)"
      and "\<not> is_raised (check_shows env scs w1) \<longrightarrow> k = length scs"
      by blast
    with Return w1
    have "Suc k \<le> length (sc # scs)"
      and "parsed_feeds (trace (world_of (check_shows env (sc # scs) w))) =
             parsed_feeds (trace w) @ map feed_url (take (Suc k) (sc # scs))"
      and "\<not> is_raised (check_shows env (sc # scs) w) \<longrightarrow> Suc k = length (sc # scs)"
      by simp_all
    then show ?thesis by blast
  qed
qed

lemma check_shows_append:
  "check_shows env (xs @ ys) w = bind (check_shows env xs w) (\<lambda>_ w1. check_shows env ys w1)"
proof (induction xs arbitrary: w)
  case Nil
  show ?case by simp
next
  case (Cons sc xs)
  show ?case
    by (cases "check_show env w sc") (simp_all add: Cons.IH)
qed

subsection \<open>The loops over entries and shows\<close>



text \<open>
  Claim C3, as stated: no error leaves \<^verbatim>\<open>check_all_shows\<close>, and a show that fails does not
  keep the later ones from being processed. The loop has no handler: with a first show
  whose episode page carries no image the error leaves \<^verbatim>\<open>check_all_shows\<close>, and the feed of
  the second show is never fetched.
\<close>

theorem check_all_shows_error_propagates:
  "is_raised (check_all_shows demo_env demo_world [bare_show, demo_show])
   \<and> parsed_feeds (trace (world_of (check_all_shows demo_env demo_world [bare_show, demo_show])))
       = [''feed://bare'']"
  by code_simp

text \<open>
  Claim C3, amended. \<^verbatim>\<open>check_all_shows\<close> processes the shows in the order given: the feeds
  fetched are those of the first \<open>k\<close> shows, in order, and of all the shows when it
  returns. It stops at the first show whose processing raises: when the shows before
  \<open>sc\<close> are processed without error and \<open>sc\<close> raises, \<^verbatim>\<open>check_all_shows\<close> ends as
  \<^verbatim>\<open>check_show\<close> did for \<open>sc\<close>, with that error and that world; the shows after it are
  not processed.
\<close>

theorem check_all_shows_stops_at_first_error:
  "(\<exists>k\<le>length scs.
       parsed_feeds (trace (world_of (check_all_shows env w scs))) =
         parsed_feeds (trace w) @ map feed_url (take k scs)
       \<and> (\<not> is_raised (check_all_shows env w scs) \<longrightarrow> k = length scs))
   \<and> (\<not> is_raised (check_shows env earlier (emit (Log INFO ''checking all shows'' []) w)) \<longrightarrow>
      is_raised (check_show env
        (world_of (check_shows env earlier (emit (Log INFO ''checking all shows'' []) w))) sc) \<longrightarrow>
      check_all_shows env w (earlier @ sc # rest) =
        check_show env
          (world_of (check_shows env earlier (emit (Log INFO ''checking all shows'' []) w))) sc)"
proof (intro conjI impI)
  let ?w0 = "emit (Log INFO ''checking all shows'' []) w"
  from check_shows_feeds [of scs env ?w0] obtain k where k: "k \<le> length scs"
    and f: "parsed_feeds (trace (world_of (check_shows env scs ?w0))) =
              parsed_feeds (trace ?w0) @ map feed_url (take k scs)"
    and n: "\<not> is_raised (check_shows env scs ?w0) \<longrightarrow> k = length scs"
    by blast
  have "parsed_feeds (trace (world_of (check_all_shows env w scs))) =
          parsed_feeds (trace w) @ map feed_url (take k scs)"
    using f by (cases "check_shows env scs ?w0") (simp_all add: check_all_shows_def trace_emit)
  moreover have "\<not> is_raised (check_all_shows env w scs) \<longrightarrow> k = length scs"
    using n by (cases "check_shows env scs ?w0") (simp_all add: check_all_shows_def)
  ultimately show "\<exists>k\<le>length scs.
       parsed_feeds (trace (world_of (check_all_shows env w scs))) =
         parsed_feeds (trace w) @ map feed_url (take k scs)
       \<and> (\<not> is_raised (check_all_shows env w scs) \<longrightarrow> k = length scs)"
    using k by blast
next
  let ?w0 = "emit (Log INFO ''checking all shows'' []) w"
  assume a: "\<not> is_raised (check_shows env earlier ?w0)"
    and b: "is_raised (check_show env (world_of (check_shows env earlier ?w0)) sc)"
  from a have e: "check_shows env earlier ?w0 = Return () (world_of (check_shows env earlier ?w0))"
    by (rule not_raised_unit)
  from b obtain err w2 where
    r: "check_show env (world_of (check_shows env earlier ?w0)) sc = Raised err w2"
    by (cases "check_show env (world_of (check_shows env earlier ?w0)) sc") simp_all
  have "check_shows env (earlier @ sc # rest) ?w0 = Raised err w2"
    by (subst check_shows_append, subst e) (simp add: r)
  then show "check_all_shows env w (earlier @ sc # rest) =
        check_show env (world_of (check_shows env earlier ?w0)) sc"
    by (simp add: check_all_shows_def r)
qed

theorem check_all_shows_stops_at_first_error_witness:
  "\<not> is_raised (check_shows demo_env [demo_show]
        (emit (Log INFO ''checking all shows'' []) demo_world))
   \<and> is_raised (check_show demo_env
        (world_of (check_shows demo_env [demo_show]
           (emit (Log INFO ''checking all shows'' []) demo_world))) bare_show)
   \<and> check_all_shows demo_env demo_world ([demo_show] @ bare_show # [demo_show]) =
       check_show demo_env
         (world_of (check_shows demo_env [demo_show]
            (emit (Log INFO ''checking all shows'' []) demo_world))) bare_show"
proof -
  have a: "\<not> is_raised (check_shows demo_env [demo_show]
        (emit (Log INFO ''checking all shows'' []) demo_world))"
    by code_simp
  have b: "is_raised (check_show demo_env
        (world_of (check_shows demo_env [demo_show]
           (emit (Log INFO ''checking all shows'' []) demo_world))) bare_show)"
    by code_simp
  from check_all_shows_stops_at_first_error
         [of "[demo_show, bare_show, demo_show]" demo_env demo_world "[demo_show]" bare_show
             "[demo_show]"] a b
  show ?thesis by blast
qed

text \<open>
  Claim C7, as stated: a failure of the thumbnail does not keep the metadata from being
  written nor the download from being attempted. \<^verbatim>\<open>save_thumb\<close> has no handler: for an
  accepted entry whose page carries no image, \<^verbatim>\<open>check_show\<close> raises, no file is written
  and no downloader is run.
\<close>

theorem check_show_thumb_failure:
  "should_download demo_env (emit (ParseFeed ''feed://bare'') demo_world)
      (demo_entry ''https://x/bare'' ''Bare'') bare_show =
     Return True (emit (ParseFeed ''feed://bare'') demo_world)
   \<and> re_match_thumb (str_bytes (resp_content bare_page)) = None
   \<and> is_raised (check_show demo_env demo_world bare_show)
   \<and> files_written (trace (world_of (check_show demo_env demo_world bare_show))) = []
   \<and> processes_run (trace (world_of (check_show demo_env demo_world bare_show))) = []"
proof -
  have "should_download demo_env (emit (ParseFeed ''feed://bare'') demo_world)
      (demo_entry ''https://x/bare'' ''Bare'') bare_show =
     Return True (emit (ParseFeed ''feed://bare'') demo_world)"
    by (simp add: should_download_def is_in_history_def demo_world_def bare_show_def emit_def)
  moreover have "re_match_thumb (str_bytes (resp_content bare_page)) = None"
    by code_simp
  moreover have "is_raised (check_show demo_env demo_world bare_show)"
    by code_simp
  moreover have "files_written (trace (world_of (check_show demo_env demo_world bare_show))) = []"
    by code_simp
  moreover have "processes_run (trace (world_of (check_show demo_env demo_world bare_show))) = []"
    by code_simp
  ultimately show ?thesis by simp
qed

text \<open>
  Claim C7, amended. For an accepted entry, a failure in \<^verbatim>\<open>save_thumb\<close> (no image address
  in the page, a request that fails, a file that cannot be written) ends the loop of
  \<^verbatim>\<open>check_show\<close> with that error: the metadata is not written and the download is not
  attempted (no process is run, the only file that may have been opened is the
  thumbnail), and the history is unchanged.
\<close>

theorem save_thumb_failure_aborts_entry:
  assumes "should_download env w entry sc = Return True w1"
    and "is_raised (save_thumb env
           (emit (Log INFO ''downloading episode %s: %s'' [entry ''title'', entry ''link'']) w1)
           entry (download sc))"
  shows "check_entries env sc (entry # rest) w =
           save_thumb env
             (emit (Log INFO ''downloading episode %s: %s'' [entry ''title'', entry ''link'']) w1)
             entry (download sc)
         \<and> processes_run (trace (world_of (check_entries env sc (entry # rest) w))) =
             processes_run (trace w)
         \<and> history (world_of (check_entries env sc (entry # rest) w)) = history w
         \<and> (\<exists>ps. files_written (trace (world_of (check_entries env sc (entry # rest) w))) =
                   files_written (trace w) @ ps
                 \<and> list_all (suffix ''-thumb.jpg'') ps)"
proof -
  let ?w2 = "emit (Log INFO ''downloading episode %s: %s'' [entry ''title'', entry ''link'']) w1"
  let ?r = "save_thumb env ?w2 entry (download sc)"
  from assms(2) obtain e w3 where r: "?r = Raised e w3"
    by (cases ?r) simp_all
  have c: "check_entries env sc (entry # rest) w = ?r"
    by (simp add: process_entry_def assms(1) r)
  from should_download_effect(2,3,4) [of env w entry sc] assms(1)
  have w1: "processes_run (trace w1) = processes_run (trace w)"
    "files_written (trace w1) = files_written (trace w)" "history w1 = history w"
    by simp_all
  have "processes_run (trace (world_of ?r)) = processes_run (trace w)"
    by (simp add: save_thumb_effect trace_emit w1)
  moreover have "history (world_of ?r) = history w"
    by (simp add: save_thumb_effect trace_emit w1)
  moreover from save_thumb_files [of env ?w2 entry "download sc"]
  have "\<exists>ps. files_written (trace (world_of ?r)) = files_written (trace w) @ ps
              \<and> list_all (suffix ''-thumb.jpg'') ps"
    by (simp add: trace_emit w1)
  ultimately show ?thesis
    unfolding c by simp
qed

theorem save_thumb_failure_aborts_entry_witness:
  "should_download demo_env demo_world (demo_entry ''https://x/bare'' ''Bare'') bare_show =
     Return True demo_world
   \<and> check_entries demo_env bare_show
       [demo_entry ''https://x/bare'' ''Bare'', demo_entry ''https://x/1'' ''Ep1''] demo_world =
     save_thumb demo_env
       (emit (Log INFO ''downloading episode %s: %s'' [Some ''Bare'', Some ''https://x/bare''])
          demo_world)
       (demo_entry ''https://x/bare'' ''Bare'') (download bare_show)
   \<and> processes_run (trace (world_of (check_entries demo_env bare_show
        [demo_entry ''https://x/bare'' ''Bare'', demo_entry ''https://x/1'' ''Ep1''] demo_world))) = []
   \<and> history (world_of (check_entries demo_env bare_show
        [demo_entry ''https://x/bare'' ''Bare'', demo_entry ''https://x/1'' ''Ep1''] demo_world)) = {}"
proof -
  have a: "should_download demo_env demo_world (demo_entry ''https://x/bare'' ''Bare'') bare_show =
     Return True demo_world"
    by (simp add: should_download_def is_in_history_def demo_world_def bare_show_def)
  have t: "demo_entry ''https://x/bare'' ''Bare'' ''title'' = Some ''Bare''"
    "demo_entry ''https://x/bare'' ''Bare'' ''link'' = Some ''https://x/bare''"
    by (simp_all add: demo_entry_def)
  have b: "is_raised (save_thumb demo_env
       (emit (Log INFO ''downloading episode %s: %s''
          [demo_entry ''https://x/bare'' ''Bare'' ''title'',
           demo_entry ''https://x/bare'' ''Bare'' ''link'']) demo_world)
       (demo_entry ''https://x/bare'' ''Bare'') (download bare_show))"
    unfolding t by code_simp
  have p: "processes_run (trace demo_world) = []" "history demo_world = {}"
    by (simp_all add: demo_world_def processes_run_def)
  note th = save_thumb_failure_aborts_entry
              [OF a b, of "[demo_entry ''https://x/1'' ''Ep1'']", unfolded t p]
  from th a show ?thesis
    by blast
qed

subsection \<open>Calling the sequencer again and again\<close>





























end
